theory Spec2Isabelle
  imports Main
begin

section \<open>The IR pipeline of commands/printIR.go\<close>

text \<open>
  A shallow embedding of \<^verbatim>\<open>commands/printIR.go\<close>: the variable mapper
  (\<^verbatim>\<open>stringSliceToMap\<close>), the config loader (\<^verbatim>\<open>ExecuteDSL\<close>), the
  issue classifier (\<^verbatim>\<open>PrintValidationErrors\<close>), the serializer
  (\<^verbatim>\<open>PrintJSON\<close>), the pipeline (\<^verbatim>\<open>PrintIR\<close>) and the action of the
  \<^verbatim>\<open>check\<close> command. Side effects are recorded in an explicit world that every
  effectful function takes and returns.
\<close>

subsection \<open>Go values: errors, streams, the world\<close>

text \<open>
  A Go \<^verbatim>\<open>error\<close> is an interface value: \<^verbatim>\<open>nil\<close>, or a value with a dynamic
  type and the text its \<^verbatim>\<open>Error()\<close> method returns. The dynamic types that occur
  in the file are named; every other one is \<open>OtherType\<close> with its name.
\<close>

datatype go_type =
    NormalizeWarning
  | FmtError
  | FmtWrapError
  | CliExitError nat
  | OtherType string

datatype go_error = GoError (dyn_type: go_type) (Error: string)

type_synonym error = "go_error option"

datatype stream = Stdout | Stderr

text \<open>
  The events of one run, in the order in which they happen: a message handed to the
  standard logger (with the stream the logger writes to at that moment), a write of
  the \<^verbatim>\<open>fmt\<close> package to a stream, the file operations of the serializer, and
  the calls of the collaborators that live in other packages.
\<close>

datatype event =
    EvLog stream string
  | EvPrint stream string
  | EvCreate string
  | EvWrite string string
  | EvClose string
  | EvExecuteJavaScript string bool
  | EvPostProcess
  | EvValidateAndNormalizeConfig
  | EvPrintWarning

text \<open>
  The world: the trace of events, the content of the regular files, the writer of the
  standard logger (\<^verbatim>\<open>log.SetOutput\<close>), \<^verbatim>\<open>cli.ErrWriter\<close>, and what the
  operating system will refuse: the paths \<^verbatim>\<open>os.Create\<close> fails on, and the paths
  where a write stops after some bytes with an error.
\<close>

record world =
  trace :: "event list"
  fs :: "string \<rightharpoonup> string"
  log_output :: stream
  ErrWriter :: stream
  create_fails :: "string \<rightharpoonup> go_error"
  write_fails :: "string \<rightharpoonup> nat \<times> go_error"

definition emit :: "event \<Rightarrow> world \<Rightarrow> world" where
  "emit e w = w\<lparr>trace := trace w @ [e]\<rparr>"

definition newline :: char where
  "newline = CHR 0x0A"

subsection \<open>Formatting and logging\<close>

text \<open>The verb \<^verbatim>\<open>%d\<close> on a length: the decimal digits of a natural number.\<close>

fun fmt_d :: "nat \<Rightarrow> string" where
  "fmt_d n = (if n < 10 then [''0123456789'' ! n]
              else fmt_d (n div 10) @ [''0123456789'' ! (n mod 10)])"

declare fmt_d.simps [simp del]

text \<open>
  The verb \<^verbatim>\<open>%s\<close> on an error: the text of \<^verbatim>\<open>Error()\<close>; a nil interface is
  printed as \<^verbatim>\<open>%!s(<nil>)\<close>.
\<close>

definition fmt_s :: "error \<Rightarrow> string" where
  "fmt_s err = (case err of None \<Rightarrow> ''%!s(<nil>)'' | Some e \<Rightarrow> Error e)"

text \<open>
  \<^verbatim>\<open>log.Printf\<close>: the formatted message goes to the writer of the standard logger.
  The logger's own header (date and time) is not part of the message and is left out.
\<close>

definition log_Printf :: "string \<Rightarrow> world \<Rightarrow> world" where
  "log_Printf s w = emit (EvLog (log_output w) s) w"

subsection \<open>PrintValidationErrors\<close>

text \<open>The type assertion \<^verbatim>\<open>_, ok := err.(normalize.Warning)\<close>.\<close>

definition is_Warning :: "error \<Rightarrow> bool" where
  "is_Warning err = (case err of None \<Rightarrow> False | Some e \<Rightarrow> dyn_type e = NormalizeWarning)"

text \<open>The body of the \<^verbatim>\<open>for ... range errs\<close> loop, with the named result \<open>fatal\<close>.\<close>

fun PrintValidationErrors_loop :: "error list \<Rightarrow> bool \<Rightarrow> world \<Rightarrow> bool \<times> world" where
  "PrintValidationErrors_loop [] fatal w = (fatal, w)"
| "PrintValidationErrors_loop (err # errs) fatal w =
     (if is_Warning err
      then PrintValidationErrors_loop errs fatal
             (log_Printf (''WARNING: '' @ fmt_s err @ [newline]) w)
      else PrintValidationErrors_loop errs True
             (log_Printf (''ERROR: '' @ fmt_s err @ [newline]) w))"

definition PrintValidationErrors :: "error list \<Rightarrow> world \<Rightarrow> bool \<times> world" where
  "PrintValidationErrors errs w =
     (if length errs = 0 then (False, w)
      else PrintValidationErrors_loop errs False
             (log_Printf (fmt_d (length errs) @ '' Validation errors:'' @ [newline]) w))"

subsection \<open>stringSliceToMap\<close>

text \<open>
  \<^verbatim>\<open>strings.SplitN(s, "=", 2)\<close>: at most two pieces, cut at the first separator;
  the string itself, as the only piece, when it has no separator.
\<close>

definition SplitN_2 :: "string \<Rightarrow> char \<Rightarrow> string list" where
  "SplitN_2 s sep =
     (if sep \<in> set s
      then [takeWhile (\<lambda>c. c \<noteq> sep) s, tl (dropWhile (\<lambda>c. c \<noteq> sep) s)]
      else [s])"

fun stringSliceToMap_loop :: "string list \<Rightarrow> (string \<rightharpoonup> string) \<Rightarrow> (string \<rightharpoonup> string)" where
  "stringSliceToMap_loop [] mapString = mapString"
| "stringSliceToMap_loop (values # rest) mapString =
     (let parts = SplitN_2 values (CHR ''='')
      in if length parts = 2
         then stringSliceToMap_loop rest (mapString(parts ! 0 \<mapsto> parts ! 1))
         else stringSliceToMap_loop rest mapString)"

definition stringSliceToMap :: "string list \<Rightarrow> (string \<rightharpoonup> string)" where
  "stringSliceToMap stringSlice = stringSliceToMap_loop stringSlice Map.empty"

text \<open>
  The variable mapper in the words of its contract: every token with an \<open>=\<close> gives the
  pair of what is before the first \<open>=\<close> and what is after it, a token without one gives
  nothing, and among the pairs of one key the last one counts.
\<close>

definition key_value :: "string \<Rightarrow> (string \<times> string) option" where
  "key_value t =
     (if CHR ''='' \<in> set t
      then Some (takeWhile (\<lambda>c. c \<noteq> CHR ''='') t, tl (dropWhile (\<lambda>c. c \<noteq> CHR ''='') t))
      else None)"

definition variable_mapping :: "string list \<Rightarrow> (string \<rightharpoonup> string)" where
  "variable_mapping ts = map_of (rev (List.map_filter key_value ts))"

subsection \<open>Arguments and collaborators\<close>

text \<open>
  The argument structs are declared in other files of the package; they are modelled
  with the fields that \<^verbatim>\<open>printIR.go\<close> reads and writes. \<^verbatim>\<open>PrintIRArgs\<close>
  embeds \<^verbatim>\<open>GetDNSConfigArgs\<close> and \<^verbatim>\<open>PrintJSONArgs\<close> and adds \<^verbatim>\<open>Raw\<close>;
  \<^verbatim>\<open>CheckArgs\<close> embeds \<^verbatim>\<open>GetDNSConfigArgs\<close> only.
\<close>

record ExecuteDSLArgs =
  JSFile :: string
  DevMode :: bool
  Variable :: "string list"

record GetDNSConfigArgs = ExecuteDSLArgs +
  JSONFile :: string

record PrintJSONArgs =
  Pretty :: bool
  Output :: string

record PrintIRArgs =
  GetDNSConfigArgs_of :: GetDNSConfigArgs
  PrintJSONArgs_of :: PrintJSONArgs
  Raw :: bool

type_synonym CheckArgs = GetDNSConfigArgs

text \<open>
  \<^verbatim>\<open>models.DNSConfig\<close>: the list of domains, which \<^verbatim>\<open>ExecuteDSL\<close> hands to the
  post-processor, and the rest of the graph.
\<close>

record ('d, 'o) DNSConfig =
  Domains :: "'d list"
  Rest :: 'o

text \<open>
  The collaborators of other packages, as parameters: the evaluator
  \<^verbatim>\<open>js.ExecuteJavaScript\<close>, \<^verbatim>\<open>rtypes.PostProcess\<close> (it changes the domains in
  place and returns an error or nil), \<^verbatim>\<open>normalize.ValidateAndNormalizeConfig\<close> (it
  changes the graph in place and returns the issues), and the encoding of a graph
  by \<^verbatim>\<open>json.Marshal\<close>.
\<close>

record ('d, 'o) collaborators =
  ExecuteJavaScript ::
    "string \<Rightarrow> bool \<Rightarrow> (string \<rightharpoonup> string) \<Rightarrow> go_error + ('d, 'o) DNSConfig"
  PostProcess :: "'d list \<Rightarrow> error \<times> 'd list"
  ValidateAndNormalizeConfig :: "('d, 'o) DNSConfig \<Rightarrow> error list \<times> ('d, 'o) DNSConfig"
  Marshal :: "('d, 'o) DNSConfig \<Rightarrow> go_error + string"

subsection \<open>ExecuteDSL\<close>

definition ExecuteDSL ::
  "('d, 'o) collaborators \<Rightarrow> ExecuteDSLArgs \<Rightarrow> world \<Rightarrow> (go_error + ('d, 'o) DNSConfig) \<times> world" where
  "ExecuteDSL c args w =
     (if JSFile args = [] then (Inl (GoError FmtError ''no config specified''), w)
      else
        let w1 = emit (EvExecuteJavaScript (JSFile args) (DevMode args)) w
        in case ExecuteJavaScript c (JSFile args) (DevMode args) (stringSliceToMap (Variable args)) of
             Inl err \<Rightarrow>
               (Inl (GoError FmtWrapError (''executing '' @ JSFile args @ '': '' @ Error err)), w1)
           | Inr dnsConfig \<Rightarrow>
               let w2 = emit EvPostProcess w1
               in case PostProcess c (Domains dnsConfig) of
                    (Some err, _) \<Rightarrow> (Inl err, w2)
                  | (None, ds) \<Rightarrow> (Inr (dnsConfig\<lparr>Domains := ds\<rparr>), w2))"

text \<open>
  Modelled from the spec: \<^verbatim>\<open>GetDNSConfig\<close> is called by \<^verbatim>\<open>PrintIR\<close> and is
  declared in another file of the package. The spec's \<open>Load\<close> stage runs the Config
  Loader with the source path, the development-mode flag and the variables of the
  invocation.
\<close>

definition GetDNSConfig ::
  "('d, 'o) collaborators \<Rightarrow> GetDNSConfigArgs \<Rightarrow> world \<Rightarrow> (go_error + ('d, 'o) DNSConfig) \<times> world" where
  "GetDNSConfig c args w =
     ExecuteDSL c \<lparr>JSFile = JSFile args, DevMode = DevMode args, Variable = Variable args\<rparr> w"

subsection \<open>encoding/json: Marshal and MarshalIndent\<close>

text \<open>
  \<^verbatim>\<open>json.MarshalIndent(v, prefix, indent)\<close> is \<^verbatim>\<open>json.Marshal(v)\<close> followed by
  the indenting pass of the package over the bytes. The pass reads the compact text
  with the package's scanner. On the well-formed texts that \<^verbatim>\<open>Marshal\<close> returns the
  scanner reports no error, and the pass only needs to know whether a byte is inside a
  string literal, is white space outside one, or closes an object or array; the
  scanner is modelled that far.
\<close>

definition isSpace :: "char \<Rightarrow> bool" where
  "isSpace c = (c = CHR '' '' \<or> c = CHR 0x09 \<or> c = CHR 0x0D \<or> c = CHR 0x0A)"

datatype scan_state = Outside | InString | InStringEsc

datatype scan_code = scanContinue | scanSkipSpace | scanEndObject | scanEndArray | scanOther

fun scan_step :: "scan_state \<Rightarrow> char \<Rightarrow> scan_code \<times> scan_state" where
  "scan_step InStringEsc c = (scanContinue, InString)"
| "scan_step InString c =
     (scanContinue,
      if c = CHR 0x22 then Outside else if c = CHR 0x5C then InStringEsc else InString)"
| "scan_step Outside c =
     (if isSpace c then (scanSkipSpace, Outside)
      else if c = CHR 0x22 then (scanOther, InString)
      else if c = CHR ''}'' then (scanEndObject, Outside)
      else if c = CHR '']'' then (scanEndArray, Outside)
      else (scanOther, Outside))"

definition appendNewline :: "string \<Rightarrow> string \<Rightarrow> string \<Rightarrow> int \<Rightarrow> string" where
  "appendNewline dst prefix indent depth =
     dst @ [newline] @ prefix @ concat (replicate (nat depth) indent)"

record indent_state =
  dst :: string
  scan :: scan_state
  needIndent :: bool
  depth :: int

text \<open>One round of the loop of the indenting pass, on the byte \<open>c\<close>.\<close>

definition indent_step :: "string \<Rightarrow> string \<Rightarrow> indent_state \<Rightarrow> char \<Rightarrow> indent_state" where
  "indent_step prefix indent st c =
     (case scan_step (scan st) c of (v, scan') \<Rightarrow>
        if v = scanSkipSpace then st\<lparr>scan := scan'\<rparr>
        else
          let st1 =
                (if needIndent st \<and> v \<noteq> scanEndObject \<and> v \<noteq> scanEndArray
                 then st\<lparr>scan := scan', needIndent := False, depth := depth st + 1,
                         dst := appendNewline (dst st) prefix indent (depth st + 1)\<rparr>
                 else st\<lparr>scan := scan'\<rparr>)
          in if v = scanContinue then st1\<lparr>dst := dst st1 @ [c]\<rparr>
             else if c = CHR ''{'' \<or> c = CHR ''['' then st1\<lparr>needIndent := True, dst := dst st1 @ [c]\<rparr>
             else if c = CHR '','' then
               st1\<lparr>dst := appendNewline (dst st1 @ [c]) prefix indent (depth st1)\<rparr>
             else if c = CHR '':'' then st1\<lparr>dst := dst st1 @ [c, CHR '' '']\<rparr>
             else if c = CHR ''}'' \<or> c = CHR '']'' then
               (if needIndent st1 then st1\<lparr>needIndent := False, dst := dst st1 @ [c]\<rparr>
                else st1\<lparr>depth := depth st1 - 1,
                         dst := appendNewline (dst st1) prefix indent (depth st1 - 1) @ [c]\<rparr>)
             else st1\<lparr>dst := dst st1 @ [c]\<rparr>)"

definition appendIndent :: "string \<Rightarrow> string \<Rightarrow> string \<Rightarrow> string \<Rightarrow> string" where
  "appendIndent dst0 src prefix indent =
     dst (foldl (indent_step prefix indent)
            \<lparr>dst = dst0, scan = Outside, needIndent = False, depth = 0\<rparr> src)"

definition MarshalIndent ::
  "('d, 'o) collaborators \<Rightarrow> ('d, 'o) DNSConfig \<Rightarrow> string \<Rightarrow> string \<Rightarrow> go_error + string" where
  "MarshalIndent c v prefix indent =
     (case Marshal c v of
        Inl err \<Rightarrow> Inl err
      | Inr b \<Rightarrow> Inr (appendIndent [] b prefix indent))"

subsection \<open>Files and standard output\<close>

text \<open>
  \<^verbatim>\<open>os.DevNull\<close> on Unix. It is a device: creating it truncates nothing and what is
  written to it is discarded, so the content of the regular files does not change.
\<close>

definition os_DevNull :: string where
  "os_DevNull = ''/dev/null''"

text \<open>
  \<^verbatim>\<open>os.Create\<close>: the error of the operating system, or the file, created or
  truncated to length zero. An open file is named by its path.
\<close>

definition os_Create :: "string \<Rightarrow> world \<Rightarrow> (go_error + string) \<times> world" where
  "os_Create name w =
     (let w1 = emit (EvCreate name) w
      in case create_fails w name of
           Some err \<Rightarrow> (Inl err, w1)
         | None \<Rightarrow>
             (Inr name, if name = os_DevNull then w1 else w1\<lparr>fs := (fs w1)(name \<mapsto> [])\<rparr>))"

text \<open>
  \<^verbatim>\<open>f.Write\<close>: the bytes are appended to the file; when the operating system stops
  the write, only the bytes before that reach the file and the error is returned.
\<close>

definition file_Write :: "string \<Rightarrow> string \<Rightarrow> world \<Rightarrow> error \<times> world" where
  "file_Write f b w =
     (let w1 = emit (EvWrite f b) w;
          old = (case fs w f of None \<Rightarrow> [] | Some content \<Rightarrow> content)
      in case write_fails w f of
           Some (n, err) \<Rightarrow>
             (Some err, if f = os_DevNull then w1 else w1\<lparr>fs := (fs w1)(f \<mapsto> old @ take n b)\<rparr>)
         | None \<Rightarrow>
             (None, if f = os_DevNull then w1 else w1\<lparr>fs := (fs w1)(f \<mapsto> old @ b)\<rparr>))"

definition file_Close :: "string \<Rightarrow> world \<Rightarrow> world" where
  "file_Close f w = emit (EvClose f) w"

definition fmt_Println :: "string \<Rightarrow> world \<Rightarrow> world" where
  "fmt_Println s w = emit (EvPrint Stdout (s @ [newline])) w"

definition fmt_Fprintf :: "stream \<Rightarrow> string \<Rightarrow> world \<Rightarrow> world" where
  "fmt_Fprintf out s w = emit (EvPrint out s) w"

subsection \<open>PrintJSON\<close>

text \<open>The first statement of \<^verbatim>\<open>PrintJSON\<close>: the bytes \<open>dat\<close>, or the error.\<close>

definition PrintJSON_dat ::
  "('d, 'o) collaborators \<Rightarrow> PrintJSONArgs \<Rightarrow> ('d, 'o) DNSConfig \<Rightarrow> go_error + string" where
  "PrintJSON_dat c args config =
     (if Pretty args then MarshalIndent c config [] ''  '' else Marshal c config)"

definition PrintJSON ::
  "('d, 'o) collaborators \<Rightarrow> PrintJSONArgs \<Rightarrow> ('d, 'o) DNSConfig \<Rightarrow> world \<Rightarrow> error \<times> world" where
  "PrintJSON c args config w =
     (case PrintJSON_dat c args config of
        Inl err \<Rightarrow> (Some err, w)
      | Inr dat \<Rightarrow>
          if Output args \<noteq> [] then
            (case os_Create (Output args) w of
               (Inl err, w1) \<Rightarrow> (Some err, w1)
             | (Inr f, w1) \<Rightarrow>
                 (case file_Write f dat w1 of (err, w2) \<Rightarrow> (err, file_Close f w2)))
          else (None, fmt_Println dat w))"

subsection \<open>PrintIR\<close>

definition PrintIR ::
  "('d, 'o) collaborators \<Rightarrow> PrintIRArgs \<Rightarrow> world \<Rightarrow> error \<times> world" where
  "PrintIR c args w =
     (case GetDNSConfig c (GetDNSConfigArgs_of args) w of
        (Inl err, w1) \<Rightarrow> (Some err, w1)
      | (Inr cfg, w1) \<Rightarrow>
          if \<not> Raw args then
            (case ValidateAndNormalizeConfig c cfg of (errs, cfg') \<Rightarrow>
               (case PrintValidationErrors errs (emit EvValidateAndNormalizeConfig w1) of
                  (fatal, w2) \<Rightarrow>
                    if fatal then (Some (GoError FmtError ''exiting due to validation errors''), w2)
                    else PrintJSON c (PrintJSONArgs_of args) cfg' w2))
          else PrintJSON c (PrintJSONArgs_of args) cfg w1)"

subsection \<open>The check command\<close>

text \<open>\<^verbatim>\<open>cli.Exit(err, 1)\<close> for an error, nil for nil.\<close>

definition exit :: "error \<Rightarrow> error" where
  "exit err = (case err of None \<Rightarrow> None | Some e \<Rightarrow> Some (GoError (CliExitError 1) (Error e)))"

text \<open>
  Modelled from the spec: \<^verbatim>\<open>rfc4183.PrintWarning\<close> is declared in another package.
  The spec's deferred warning emitter is a call without parameters; the call is
  recorded, what the emitter itself prints is not modelled.
\<close>

definition rfc4183_PrintWarning :: "world \<Rightarrow> world" where
  "rfc4183_PrintWarning w = emit EvPrintWarning w"

text \<open>
  The arguments of the \<^verbatim>\<open>check\<close> action for \<^verbatim>\<open>PrintIR\<close>: a zero
  \<^verbatim>\<open>PrintIRArgs\<close>, four fields copied, two forced.
\<close>

definition check_pargs :: "CheckArgs \<Rightarrow> PrintIRArgs" where
  "check_pargs args =
     \<lparr>GetDNSConfigArgs_of =
        \<lparr>JSFile = JSFile args, DevMode = DevMode args, Variable = Variable args,
         JSONFile = JSONFile args\<rparr>,
      PrintJSONArgs_of = \<lparr>Pretty = False, Output = os_DevNull\<rparr>,
      Raw = False\<rparr>"

text \<open>\<^verbatim>\<open>cli.ErrWriter = os.Stdout\<close> and \<^verbatim>\<open>log.SetOutput(os.Stdout)\<close>.\<close>

definition check_redirect :: "world \<Rightarrow> world" where
  "check_redirect w = w\<lparr>ErrWriter := Stdout, log_output := Stdout\<rparr>"

definition check_Action :: "('d, 'o) collaborators \<Rightarrow> CheckArgs \<Rightarrow> world \<Rightarrow> error \<times> world" where
  "check_Action c args w =
     (case PrintIR c (check_pargs args) (check_redirect w) of (r, w1) \<Rightarrow>
        let err = exit r;
            w2 = rfc4183_PrintWarning w1
        in if err = None then (err, fmt_Fprintf Stdout (''No errors.'' @ [newline]) w2)
           else (err, w2))"

text \<open>The action of the \<^verbatim>\<open>print-ir\<close> command.\<close>

definition print_ir_Action :: "('d, 'o) collaborators \<Rightarrow> PrintIRArgs \<Rightarrow> world \<Rightarrow> error \<times> world" where
  "print_ir_Action c args w = (case PrintIR c args w of (r, w1) \<Rightarrow> (exit r, w1))"

text \<open>The world at the start of a process: nothing has happened, both writers are
  the error stream, and the operating system refuses nothing.\<close>

definition world0 :: world where
  "world0 = \<lparr>trace = [], fs = Map.empty, log_output = Stderr, ErrWriter = Stderr,
             create_fails = Map.empty, write_fails = Map.empty\<rparr>"

subsection \<open>What a run shows\<close>

text \<open>
  The notions the properties below are stated with: the kind of an issue (its dynamic
  type), the two sorts of line of the classifier in the words of its contract, the text
  without white space, the numbers of calls of the collaborators, what was logged, and
  what was written to a stream.
\<close>

definition kind :: "error \<Rightarrow> go_type option" where
  "kind err = map_option dyn_type err"

definition issue_line :: "error \<Rightarrow> string" where
  "issue_line err =
     (if kind err = Some NormalizeWarning then ''WARNING: '' else ''ERROR: '') @ fmt_s err @ [newline]"

definition count_line :: "nat \<Rightarrow> string" where
  "count_line n = fmt_d n @ '' Validation errors:'' @ [newline]"

definition strip_ws :: "string \<Rightarrow> string" where
  "strip_ws s = filter (\<lambda>c. \<not> isSpace c) s"

definition validator_calls :: "world \<Rightarrow> nat" where
  "validator_calls w = count_list (trace w) EvValidateAndNormalizeConfig"

definition warning_calls :: "world \<Rightarrow> nat" where
  "warning_calls w = count_list (trace w) EvPrintWarning"

fun is_EvExecuteJavaScript :: "event \<Rightarrow> bool" where
  "is_EvExecuteJavaScript (EvExecuteJavaScript f d) = True"
| "is_EvExecuteJavaScript e = False"

definition evaluator_calls :: "world \<Rightarrow> nat" where
  "evaluator_calls w = length (filter is_EvExecuteJavaScript (trace w))"

fun logged :: "event \<Rightarrow> (stream \<times> string) list" where
  "logged (EvLog s m) = [(s, m)]"
| "logged e = []"

definition reported :: "world \<Rightarrow> (stream \<times> string) list" where
  "reported w = concat (map logged (trace w))"

fun on_stream :: "stream \<Rightarrow> event \<Rightarrow> bool" where
  "on_stream out (EvLog s m) = (s = out)"
| "on_stream out (EvPrint s m) = (s = out)"
| "on_stream out e = False"

definition written :: "stream \<Rightarrow> world \<Rightarrow> event list" where
  "written out w = filter (on_stream out) (trace w)"

text \<open>
  A step from \<open>w\<close> to \<open>w'\<close> that only appends events, all of them allowed by \<open>P\<close>,
  and leaves the two writers as they are. It is used in the proofs only.
\<close>

definition extends :: "(event \<Rightarrow> bool) \<Rightarrow> world \<Rightarrow> world \<Rightarrow> bool" where
  "extends P w w' =
     (\<exists>evs. trace w' = trace w @ evs \<and> list_all P evs \<and>
            log_output w' = log_output w \<and> ErrWriter w' = ErrWriter w)"

subsection \<open>Concrete collaborators and inputs\<close>

text \<open>
  A small set of collaborators for the concrete runs: the evaluator fails on
  \<^verbatim>\<open>broken.js\<close> and otherwise returns the domain named by the variable \<open>D\<close>;
  the validator warns about \<^verbatim>\<open>warn.example\<close> and reports a warning and an error
  for \<^verbatim>\<open>err.example\<close>; the encoder fails on \<^verbatim>\<open>nan.example\<close>.
\<close>

definition json_string :: "string \<Rightarrow> string" where
  "json_string s = CHR 0x22 # s @ [CHR 0x22]"

fun json_list :: "string list \<Rightarrow> string" where
  "json_list [] = []"
| "json_list [x] = x"
| "json_list (x # y # ys) = x @ '','' @ json_list (y # ys)"

definition warning_ttl :: error where
  "warning_ttl = Some (GoError NormalizeWarning ''TTL is low'')"

definition error_cname :: error where
  "error_cname = Some (GoError (OtherType ''*errors.errorString'') ''CNAME at apex'')"

definition stub :: "(string, unit) collaborators" where
  "stub =
     \<lparr>ExecuteJavaScript = (\<lambda>file dev vars.
        if file = ''broken.js'' then Inl (GoError (OtherType ''*js.Error'') ''SyntaxError'')
        else Inr \<lparr>Domains = (case vars ''D'' of None \<Rightarrow> [] | Some d \<Rightarrow> [d]), Rest = ()\<rparr>),
      PostProcess = (\<lambda>ds. (None, ds)),
      ValidateAndNormalizeConfig = (\<lambda>cfg.
        (concat (map (\<lambda>d. if d = ''warn.example'' then [warning_ttl]
                           else if d = ''err.example'' then [warning_ttl, error_cname]
                           else []) (Domains cfg)), cfg)),
      Marshal = (\<lambda>cfg.
        if ''nan.example'' \<in> set (Domains cfg)
        then Inl (GoError (OtherType ''*json.UnsupportedValueError'') ''json: unsupported value: NaN'')
        else Inr (''{'' @ json_string ''domains'' @ '':['' @
                  json_list (map json_string (Domains cfg)) @ '']}''))\<rparr>"

definition run_args :: "string \<Rightarrow> string list \<Rightarrow> bool \<Rightarrow> string \<Rightarrow> bool \<Rightarrow> PrintIRArgs" where
  "run_args file vars pretty out raw =
     \<lparr>GetDNSConfigArgs_of = \<lparr>JSFile = file, DevMode = False, Variable = vars, JSONFile = []\<rparr>,
      PrintJSONArgs_of = \<lparr>Pretty = pretty, Output = out\<rparr>,
      Raw = raw\<rparr>"

section \<open>Lemmas\<close>

subsection \<open>The classifier\<close>

lemma log_Printf_fields [simp]:
  "trace (log_Printf s w) = trace w @ [EvLog (log_output w) s]"
  "log_output (log_Printf s w) = log_output w"
  by (simp_all add: log_Printf_def emit_def)

lemma is_Warning_kind: "is_Warning err = (kind err = Some NormalizeWarning)"
  by (cases err) (auto simp: is_Warning_def kind_def)

lemma loop_fatal:
  "fst (PrintValidationErrors_loop errs fatal w) = (fatal \<or> (\<exists>err\<in>set errs. \<not> is_Warning err))"
  by (induction errs arbitrary: fatal w) auto

lemma loop_world:
  "snd (PrintValidationErrors_loop errs fatal w) =
     w\<lparr>trace := trace w @ map (\<lambda>err. EvLog (log_output w) (issue_line err)) errs\<rparr>"
  by (induction errs arbitrary: fatal w)
     (auto simp: issue_line_def is_Warning_kind log_Printf_def emit_def)

lemma classifier_fatal:
  "fst (PrintValidationErrors errs w) = (\<exists>err\<in>set errs. kind err \<noteq> Some NormalizeWarning)"
  by (cases errs) (auto simp: PrintValidationErrors_def loop_fatal is_Warning_kind)

lemma classifier_world:
  "errs \<noteq> [] \<Longrightarrow> snd (PrintValidationErrors errs w) =
     w\<lparr>trace := trace w @ EvLog (log_output w) (count_line (length errs)) #
                 map (\<lambda>err. EvLog (log_output w) (issue_line err)) errs\<rparr>"
  by (simp add: PrintValidationErrors_def loop_world count_line_def log_Printf_def emit_def)

lemma classifier_Nil: "PrintValidationErrors [] w = (False, w)"
  by (simp add: PrintValidationErrors_def)

lemma extends_refl: "extends P w w"
  by (simp add: extends_def)

lemma extends_trans: "extends P w w1 \<Longrightarrow> extends P w1 w2 \<Longrightarrow> extends P w w2"
  by (auto simp: extends_def)

lemma extends_emit: "P e \<Longrightarrow> extends P w (emit e w)"
  by (simp add: extends_def emit_def)

lemma kind_eq_fatal:
  assumes "map kind errs' = map kind errs"
  shows "(\<exists>err\<in>set errs'. kind err \<noteq> Some NormalizeWarning) =
         (\<exists>err\<in>set errs. kind err \<noteq> Some NormalizeWarning)"
proof -
  from assms have "set (map kind errs') = set (map kind errs)"
    by (rule arg_cong)
  then have img: "kind ` set errs' = kind ` set errs"
    by (simp only: set_map)
  have "(\<exists>err\<in>set errs'. kind err \<noteq> Some NormalizeWarning) =
        (\<exists>k\<in>kind ` set errs'. k \<noteq> Some NormalizeWarning)"
    by blast
  also have "\<dots> = (\<exists>k\<in>kind ` set errs. k \<noteq> Some NormalizeWarning)"
    by (simp only: img)
  also have "\<dots> = (\<exists>err\<in>set errs. kind err \<noteq> Some NormalizeWarning)"
    by blast
  finally show ?thesis .
qed

subsection \<open>The variable mapper\<close>

lemma variable_mapping_Nil [simp]: "variable_mapping [] = Map.empty"
  by (simp add: variable_mapping_def List.map_filter_simps)

lemma variable_mapping_Cons:
  "variable_mapping (t # ts) =
     (case key_value t of None \<Rightarrow> variable_mapping ts
      | Some (k, v) \<Rightarrow> [k \<mapsto> v] ++ variable_mapping ts)"
  by (simp add: variable_mapping_def List.map_filter_simps split: option.splits)

lemma SplitN_2_key_value:
  "SplitN_2 t (CHR ''='') = (case key_value t of None \<Rightarrow> [t] | Some (k, v) \<Rightarrow> [k, v])"
  by (simp add: SplitN_2_def key_value_def)

lemma upd_map_add: "m(k \<mapsto> v) ++ n = m ++ ([k \<mapsto> v] ++ n)"
  by (rule ext) (simp add: map_add_def split: option.splits)

lemma stringSliceToMap_loop_eq: "stringSliceToMap_loop ts m = m ++ variable_mapping ts"
proof (induction ts arbitrary: m)
  case Nil
  show ?case by simp
next
  case (Cons t ts)
  show ?case
  proof (cases "key_value t")
    case None
    then show ?thesis
      by (simp add: Cons.IH SplitN_2_key_value variable_mapping_Cons)
  next
    case (Some kv)
    obtain k v where kv: "kv = (k, v)" by (cases kv)
    have "stringSliceToMap_loop (t # ts) m = m(k \<mapsto> v) ++ variable_mapping ts"
      using Some kv by (simp add: Cons.IH SplitN_2_key_value fun_upd_def)
    also have "\<dots> = m ++ ([k \<mapsto> v] ++ variable_mapping ts)"
      by (rule upd_map_add)
    also have "[k \<mapsto> v] ++ variable_mapping ts = variable_mapping (t # ts)"
      using Some kv by (simp only: variable_mapping_Cons option.case prod.case)
    finally show ?thesis .
  qed
qed

lemma stringSliceToMap_eq: "stringSliceToMap ts = variable_mapping ts"
  by (simp add: stringSliceToMap_def stringSliceToMap_loop_eq)

lemma variable_mapping_append:
  "variable_mapping (ts @ us) = variable_mapping ts ++ variable_mapping us"
  by (simp add: variable_mapping_def List.map_filter_def)

lemma key_value_split: "CHR ''='' \<notin> set k \<Longrightarrow> key_value (k @ CHR ''='' # v) = Some (k, v)"
  by (induction k) (auto simp: key_value_def)

subsection \<open>The indenting pass\<close>

lemma scan_step_skip: "scan_step s c = (scanSkipSpace, s') \<Longrightarrow> isSpace c"
  by (cases s) (auto split: if_splits)

lemma strip_ws_Nil: "strip_ws [] = []"
  by (simp add: strip_ws_def)

lemma strip_ws_Cons: "strip_ws (c # s) = (if isSpace c then strip_ws s else c # strip_ws s)"
  by (simp add: strip_ws_def)

lemma strip_ws_append: "strip_ws (xs @ ys) = strip_ws xs @ strip_ws ys"
  by (simp add: strip_ws_def)

lemma strip_ws_spaces: "\<forall>c\<in>set s. isSpace c \<Longrightarrow> strip_ws s = []"
  by (simp add: strip_ws_def)

lemma isSpace_space: "isSpace (CHR '' '')"
  by (simp add: isSpace_def)

lemma isSpace_newline: "isSpace newline"
  by (simp add: isSpace_def newline_def)

lemma strip_ws_appendNewline:
  assumes "\<forall>c\<in>set prefix. isSpace c" and "\<forall>c\<in>set indent. isSpace c"
  shows "strip_ws (appendNewline d prefix indent n) = strip_ws d"
proof -
  have "\<forall>c\<in>set ([newline] @ prefix @ concat (replicate (nat n) indent)). isSpace c"
    using assms by (auto simp: isSpace_newline)
  then have "strip_ws ([newline] @ prefix @ concat (replicate (nat n) indent)) = []"
    by (rule strip_ws_spaces)
  then show ?thesis
    by (simp only: appendNewline_def strip_ws_append [of d] append_Nil2)
qed

lemma strip_ws_indent_step:
  assumes "\<forall>c\<in>set prefix. isSpace c" and "\<forall>c\<in>set indent. isSpace c"
  shows "strip_ws (dst (indent_step prefix indent st c)) = strip_ws (dst st) @ strip_ws [c]"
proof -
  obtain v s' where sc: "scan_step (scan st) c = (v, s')"
    by (cases "scan_step (scan st) c")
  note nl = strip_ws_appendNewline [OF assms]
  show ?thesis
  proof (cases "v = scanSkipSpace")
    case True
    with sc have "isSpace c" by (simp add: scan_step_skip)
    with True sc show ?thesis
      by (simp add: indent_step_def strip_ws_Cons strip_ws_Nil)
  next
    case False
    with sc show ?thesis
      by (simp add: indent_step_def Let_def nl strip_ws_append strip_ws_Cons strip_ws_Nil
            isSpace_space)
  qed
qed

lemma strip_ws_foldl_indent_step:
  assumes "\<forall>c\<in>set prefix. isSpace c" and "\<forall>c\<in>set indent. isSpace c"
  shows "strip_ws (dst (foldl (indent_step prefix indent) st src)) = strip_ws (dst st) @ strip_ws src"
proof (induction src arbitrary: st)
  case Nil
  show ?case by (simp add: strip_ws_Nil)
next
  case (Cons c src)
  have "strip_ws (c # src) = strip_ws [c] @ strip_ws src"
    by (simp add: strip_ws_def)
  then show ?case
    by (simp add: Cons.IH strip_ws_indent_step [OF assms])
qed

lemma strip_ws_appendIndent: "strip_ws (appendIndent [] b [] ''  '') = strip_ws b"
proof -
  have "\<forall>c\<in>set ''  ''. isSpace c" by (simp add: isSpace_def)
  moreover have "\<forall>c\<in>set ([] :: string). isSpace c" by simp
  ultimately show ?thesis
    unfolding appendIndent_def
    by (simp add: strip_ws_foldl_indent_step strip_ws_Nil)
qed

subsection \<open>The events of the pipeline\<close>

lemma extends_PrintValidationErrors:
  assumes "\<And>m. P (EvLog (log_output w) m)"
  shows "extends P w (snd (PrintValidationErrors errs w))"
proof (cases errs)
  case Nil
  then show ?thesis by (simp add: classifier_Nil extends_refl)
next
  case (Cons e es)
  then have "errs \<noteq> []" by simp
  then show ?thesis
    using assms by (simp add: classifier_world extends_def list_all_iff image_iff)
qed

lemma extends_ExecuteDSL:
  assumes "\<And>f d. P (EvExecuteJavaScript f d)" and "P EvPostProcess"
  shows "extends P w (snd (ExecuteDSL c args w))"
  using assms
  by (auto simp: ExecuteDSL_def Let_def extends_def emit_def
        split: sum.splits option.splits prod.splits)

lemma extends_GetDNSConfig:
  assumes "\<And>f d. P (EvExecuteJavaScript f d)" and "P EvPostProcess"
  shows "extends P w (snd (GetDNSConfig c args w))"
  using assms by (simp add: GetDNSConfig_def extends_ExecuteDSL)

lemma extends_PrintJSON:
  assumes "\<And>p. P (EvCreate p)" and "\<And>p b. P (EvWrite p b)" and "\<And>p. P (EvClose p)"
    and "\<And>m. Output args = [] \<Longrightarrow> P (EvPrint Stdout m)"
  shows "extends P w (snd (PrintJSON c args config w))"
  using assms
  by (auto simp: PrintJSON_def os_Create_def file_Write_def file_Close_def fmt_Println_def
        Let_def extends_def emit_def split: sum.splits option.splits prod.splits)

lemma extends_PrintIR:
  assumes ld: "\<And>f d. P (EvExecuteJavaScript f d)" "P EvPostProcess"
    and fl: "\<And>p. P (EvCreate p)" "\<And>p b. P (EvWrite p b)" "\<And>p. P (EvClose p)"
    and pr: "\<And>m. Output (PrintJSONArgs_of args) = [] \<Longrightarrow> P (EvPrint Stdout m)"
    and va: "\<not> Raw args \<Longrightarrow> P EvValidateAndNormalizeConfig"
    and lg: "\<And>m. \<not> Raw args \<Longrightarrow> P (EvLog (log_output w) m)"
  shows "extends P w (snd (PrintIR c args w))"
proof -
  obtain r w1 where g: "GetDNSConfig c (GetDNSConfigArgs_of args) w = (r, w1)"
    by (cases "GetDNSConfig c (GetDNSConfigArgs_of args) w")
  have e1: "extends P w w1"
    using extends_GetDNSConfig [of P w c "GetDNSConfigArgs_of args", OF ld] g by simp
  have js: "extends P w' (snd (PrintJSON c (PrintJSONArgs_of args) cfg w'))" for w' cfg
    by (rule extends_PrintJSON) (rule fl pr; assumption)+
  show ?thesis
  proof (cases r)
    case (Inl err)
    with g e1 show ?thesis by (simp add: PrintIR_def)
  next
    case (Inr cfg)
    show ?thesis
    proof (cases "Raw args")
      case True
      from e1 js have "extends P w (snd (PrintJSON c (PrintJSONArgs_of args) cfg w1))"
        by (rule extends_trans)
      with g Inr True show ?thesis by (simp add: PrintIR_def)
    next
      case False
      obtain errs cfg' where v: "ValidateAndNormalizeConfig c cfg = (errs, cfg')"
        by (cases "ValidateAndNormalizeConfig c cfg")
      let ?w2 = "emit EvValidateAndNormalizeConfig w1"
      obtain fatal w3 where p: "PrintValidationErrors errs ?w2 = (fatal, w3)"
        by (cases "PrintValidationErrors errs ?w2")
      have e2: "extends P w1 ?w2"
        using va [OF False] by (rule extends_emit)
      have "log_output ?w2 = log_output w"
        using e1 by (auto simp: extends_def emit_def)
      then have "\<And>m. P (EvLog (log_output ?w2) m)"
        using lg [OF False] by simp
      then have "extends P ?w2 (snd (PrintValidationErrors errs ?w2))"
        by (rule extends_PrintValidationErrors)
      with p have e3: "extends P ?w2 w3" by simp
      from e1 e2 e3 have e: "extends P w w3"
        by (blast intro: extends_trans)
      show ?thesis
      proof (cases fatal)
        case True
        with g Inr False v p e show ?thesis by (simp add: PrintIR_def)
      next
        case nf: False
        from e js have "extends P w (snd (PrintJSON c (PrintJSONArgs_of args) cfg' w3))"
          by (rule extends_trans)
        with g Inr False v p nf show ?thesis by (simp add: PrintIR_def)
      qed
    qed
  qed
qed

lemma extends_count:
  assumes "extends P w w'" and "\<And>e. P e \<Longrightarrow> e \<noteq> x"
  shows "count_list (trace w') x = count_list (trace w) x"
proof -
  from assms(1) obtain evs where t: "trace w' = trace w @ evs" and a: "list_all P evs"
    by (auto simp: extends_def)
  from a assms(2) have "x \<notin> set evs"
    by (auto simp: list_all_iff)
  then have "count_list evs x = 0" by simp
  with t show ?thesis by simp
qed

lemma extends_filter:
  assumes "extends P w w'" and "\<And>e. P e \<Longrightarrow> \<not> Q e"
  shows "filter Q (trace w') = filter Q (trace w)"
proof -
  from assms(1) obtain evs where t: "trace w' = trace w @ evs" and a: "list_all P evs"
    by (auto simp: extends_def)
  from a assms(2) have "filter Q evs = []"
    by (auto simp: list_all_iff filter_empty_conv)
  with t show ?thesis by simp
qed

lemma extends_reported:
  assumes "extends P w w'" and "\<And>e. P e \<Longrightarrow> logged e = []"
  shows "reported w' = reported w"
proof -
  from assms(1) obtain evs where t: "trace w' = trace w @ evs" and a: "list_all P evs"
    by (auto simp: extends_def)
  from a assms(2) have "concat (map logged evs) = []"
    by (auto simp: list_all_iff)
  with t show ?thesis by (simp add: reported_def)
qed

lemma validator_calls_PrintIR:
  assumes "\<not> Raw args" and "GetDNSConfig c (GetDNSConfigArgs_of args) w = (Inr cfg, w1)"
  shows "validator_calls (snd (PrintIR c args w)) = validator_calls w + 1"
proof -
  let ?P = "\<lambda>e. e \<noteq> EvValidateAndNormalizeConfig"
  let ?w2 = "emit EvValidateAndNormalizeConfig w1"
  obtain errs cfg' where v: "ValidateAndNormalizeConfig c cfg = (errs, cfg')"
    by (cases "ValidateAndNormalizeConfig c cfg")
  obtain fatal w3 where p: "PrintValidationErrors errs ?w2 = (fatal, w3)"
    by (cases "PrintValidationErrors errs ?w2")
  have "extends ?P w (snd (GetDNSConfig c (GetDNSConfigArgs_of args) w))"
    by (rule extends_GetDNSConfig) simp_all
  with assms(2) have "extends ?P w w1" by simp
  then have c1: "validator_calls w1 = validator_calls w"
    unfolding validator_calls_def by (rule extends_count) simp
  have c2: "validator_calls ?w2 = validator_calls w1 + 1"
    by (simp add: validator_calls_def emit_def)
  have "extends ?P ?w2 (snd (PrintValidationErrors errs ?w2))"
    by (rule extends_PrintValidationErrors) simp
  with p have e3: "extends ?P ?w2 w3" by simp
  then have c3: "validator_calls w3 = validator_calls ?w2"
    unfolding validator_calls_def by (rule extends_count) simp
  have "extends ?P w3 (snd (PrintJSON c (PrintJSONArgs_of args) cfg' w3))"
    by (rule extends_PrintJSON) simp_all
  then have c4: "validator_calls (snd (PrintJSON c (PrintJSONArgs_of args) cfg' w3)) = validator_calls w3"
    unfolding validator_calls_def by (rule extends_count) simp
  from assms v p c1 c2 c3 c4 show ?thesis
    by (simp add: PrintIR_def)
qed

text \<open>The loader on the concrete collaborators, for a source that evaluates.\<close>

lemma run_stub:
  "GetDNSConfig stub (GetDNSConfigArgs_of (run_args ''dnsconfig.js'' [''D='' @ d] p out raw)) w =
     (Inr \<lparr>Domains = [d], Rest = ()\<rparr>,
      w\<lparr>trace := trace w @ [EvExecuteJavaScript ''dnsconfig.js'' False, EvPostProcess]\<rparr>)"
  by (simp add: GetDNSConfig_def ExecuteDSL_def stub_def run_args_def stringSliceToMap_def
        SplitN_2_def emit_def Let_def)

section \<open>The properties\<close>

subsection \<open>The issue classifier\<close>

text \<open>
  C1. For every list of issues, the fatal flag that \<^verbatim>\<open>PrintValidationErrors\<close>
  returns is true if and only if at least one issue of the list has a dynamic kind other
  than the warning type; and two lists whose issues have the same kinds, position by
  position, get the same flag, whatever their message texts and whatever the world.
\<close>

theorem PrintValidationErrors_fatal_iff:
  "fst (PrintValidationErrors errs w) = (\<exists>err\<in>set errs. kind err \<noteq> Some NormalizeWarning) \<and>
   (map kind errs' = map kind errs \<longrightarrow>
      fst (PrintValidationErrors errs' w') = fst (PrintValidationErrors errs w))"
proof (intro conjI impI)
  show "fst (PrintValidationErrors errs w) = (\<exists>err\<in>set errs. kind err \<noteq> Some NormalizeWarning)"
    by (rule classifier_fatal)
next
  assume h: "map kind errs' = map kind errs"
  from kind_eq_fatal [OF h]
  show "fst (PrintValidationErrors errs' w') = fst (PrintValidationErrors errs w)"
    by (simp only: classifier_fatal)
qed

text \<open>
  A run of C1: two lists with the same kinds and misleading texts are both fatal; a list
  of warnings only, one of them with a text that starts with \<^verbatim>\<open>ERROR:\<close>, is not;
  a nil entry is fatal.
\<close>

theorem PrintValidationErrors_fatal_iff_witness:
  "map kind [Some (GoError NormalizeWarning ''ERROR: fatal''), Some (GoError FmtError ''WARNING: harmless'')]
     = map kind [warning_ttl, Some (GoError FmtError ''CNAME at apex'')] \<and>
   fst (PrintValidationErrors [warning_ttl, Some (GoError FmtError ''CNAME at apex'')] world0) \<and>
   fst (PrintValidationErrors
          [Some (GoError NormalizeWarning ''ERROR: fatal''), Some (GoError FmtError ''WARNING: harmless'')]
          (check_redirect world0)) \<and>
   \<not> fst (PrintValidationErrors [warning_ttl, Some (GoError NormalizeWarning ''ERROR: fatal'')] world0) \<and>
   fst (PrintValidationErrors [warning_ttl, None] world0)"
  using PrintValidationErrors_fatal_iff
          [of "[warning_ttl, Some (GoError FmtError ''CNAME at apex'')]" world0
              "[Some (GoError NormalizeWarning ''ERROR: fatal''), Some (GoError FmtError ''WARNING: harmless'')]"
              "check_redirect world0"]
        PrintValidationErrors_fatal_iff
          [of "[warning_ttl, Some (GoError NormalizeWarning ''ERROR: fatal'')]" world0]
        PrintValidationErrors_fatal_iff [of "[warning_ttl, None]" world0]
  by (simp add: kind_def warning_ttl_def)

text \<open>
  C6. On the empty list \<^verbatim>\<open>PrintValidationErrors\<close> returns false at once and writes
  nothing. On any other list the world changes by exactly these log messages, in this
  order: the count line with the length of the list, then one line for each issue in
  the order of the list, with the prefix \<^verbatim>\<open>WARNING:\<close> for an issue of the warning
  kind and \<^verbatim>\<open>ERROR:\<close> for any other; nothing is sorted and nothing is dropped.
\<close>

theorem PrintValidationErrors_output:
  "PrintValidationErrors [] w = (False, w) \<and>
   snd (PrintValidationErrors (err # errs) w) =
     w\<lparr>trace := trace w @ EvLog (log_output w) (count_line (length (err # errs))) #
                 map (\<lambda>e. EvLog (log_output w) (issue_line e)) (err # errs)\<rparr>"
  using classifier_world [of "err # errs" w]
  by (simp add: classifier_Nil)

text \<open>A run of C6: three issues, two of them equal, give four lines in the order given.\<close>

theorem PrintValidationErrors_output_witness:
  "trace (snd (PrintValidationErrors [error_cname, warning_ttl, error_cname] world0)) =
     [EvLog Stderr (''3 Validation errors:'' @ [CHR 0x0A]),
      EvLog Stderr (''ERROR: CNAME at apex'' @ [CHR 0x0A]),
      EvLog Stderr (''WARNING: TTL is low'' @ [CHR 0x0A]),
      EvLog Stderr (''ERROR: CNAME at apex'' @ [CHR 0x0A])] \<and>
   trace (snd (PrintValidationErrors [] world0)) = []"
  using PrintValidationErrors_output [of world0 error_cname "[warning_ttl, error_cname]"]
  by (simp add: world0_def count_line_def issue_line_def kind_def fmt_s_def fmt_d.simps
       warning_ttl_def error_cname_def newline_def)

subsection \<open>The variable mapper\<close>

text \<open>
  C5. For every list of tokens \<^verbatim>\<open>stringSliceToMap\<close> returns the mapping of the
  contract: each token with an \<open>=\<close> is cut at its first \<open>=\<close> only, a token
  without one adds nothing, and the last token of a key decides its value. In
  particular a token \<open>k=v\<close>, where \<open>k\<close> has no \<open>=\<close> and \<open>v\<close> is any text
  (with or without \<open>=\<close>), overwrites what the tokens before it gave for \<open>k\<close> and is
  overwritten only by the tokens after it; and a token without \<open>=\<close> can be taken out
  of the list without changing the result.
\<close>

theorem stringSliceToMap_contract:
  "stringSliceToMap ts = variable_mapping ts \<and>
   (CHR ''='' \<notin> set k \<longrightarrow> stringSliceToMap (ts @ (k @ ''='' @ v) # us) = (stringSliceToMap ts)(k \<mapsto> v) ++ stringSliceToMap us) \<and>
   (CHR ''='' \<notin> set t \<longrightarrow> stringSliceToMap (ts @ t # us) = stringSliceToMap (ts @ us))"
proof (intro conjI impI)
  show "stringSliceToMap ts = variable_mapping ts"
    by (rule stringSliceToMap_eq)
next
  assume "CHR ''='' \<notin> set k"
  then have "key_value (k @ ''='' @ v) = Some (k, v)"
    by (simp add: key_value_split)
  then have "variable_mapping ((k @ ''='' @ v) # us) = [k \<mapsto> v] ++ variable_mapping us"
    by (simp only: variable_mapping_Cons option.case prod.case)
  then have "variable_mapping (ts @ (k @ ''='' @ v) # us) =
             variable_mapping ts ++ ([k \<mapsto> v] ++ variable_mapping us)"
    by (simp only: variable_mapping_append)
  also have "\<dots> = (variable_mapping ts)(k \<mapsto> v) ++ variable_mapping us"
    by (rule upd_map_add [symmetric])
  finally show "stringSliceToMap (ts @ (k @ ''='' @ v) # us) =
                (stringSliceToMap ts)(k \<mapsto> v) ++ stringSliceToMap us"
    by (simp only: stringSliceToMap_eq)
next
  assume "CHR ''='' \<notin> set t"
  then have "key_value t = None"
    by (simp add: key_value_def)
  then have "variable_mapping (t # us) = variable_mapping us"
    by (simp only: variable_mapping_Cons option.case)
  then show "stringSliceToMap (ts @ t # us) = stringSliceToMap (ts @ us)"
    by (simp only: stringSliceToMap_eq variable_mapping_append)
qed

text \<open>
  A run of C5: the value keeps its own \<open>=\<close>, the token \<^verbatim>\<open>zz\<close> leaves no key, the
  later of two tokens of the key \<open>a\<close> wins, and the empty key is a key.
\<close>

theorem stringSliceToMap_contract_witness:
  "CHR ''='' \<notin> set ''a'' \<and> CHR ''='' \<notin> set ''zz'' \<and>
   stringSliceToMap [''a=1'', ''a=b=c'', ''zz''] ''a'' = Some ''b=c'' \<and>
   stringSliceToMap [''a=1'', ''a=b=c'', ''zz''] ''zz'' = None \<and>
   stringSliceToMap [''a=1'', ''zz'', ''a=b=c''] = stringSliceToMap [''a=1'', ''a=b=c''] \<and>
   stringSliceToMap [''a=b=c'', ''=x'', ''a=1''] ''a'' = Some ''1'' \<and>
   stringSliceToMap [''a=b=c'', ''=x'', ''a=1''] [] = Some ''x''"
  using stringSliceToMap_contract [of "[''a=1'']" "''a''" "''b=c''" "[''zz'']" "''zz''"]
        stringSliceToMap_contract [of "[''a=1'']" "''a''" "''b=c''" "[''a=b=c'']" "''zz''"]
        stringSliceToMap_contract [of "[''a=b=c'', ''=x'']" "''a''" "''1''" "[]"]
  by (simp add: stringSliceToMap_def SplitN_2_def variable_mapping_def key_value_def
        List.map_filter_simps)

subsection \<open>The serializer\<close>

text \<open>
  C7. For every graph, the bytes that \<^verbatim>\<open>PrintJSON\<close> renders in pretty mode and
  in compact mode are equal once all white space is removed from both; and when the
  encoding of the graph fails, both modes fail with the same error. The two modes
  differ in white space only.
\<close>

theorem PrintJSON_pretty_compact:
  "map_sum id strip_ws (PrintJSON_dat c (args\<lparr>Pretty := True\<rparr>) config) =
   map_sum id strip_ws (PrintJSON_dat c (args\<lparr>Pretty := False\<rparr>) config)"
  by (simp add: PrintJSON_dat_def MarshalIndent_def strip_ws_appendIndent split: sum.splits)

text \<open>A run of C7: one graph, its compact text and its text indented by two spaces.\<close>

theorem PrintJSON_pretty_compact_witness:
  "PrintJSON_dat stub \<lparr>Pretty = False, Output = []\<rparr> \<lparr>Domains = [''x.example''], Rest = ()\<rparr> =
     Inr (''{'' @ json_string ''domains'' @ '':['' @ json_string ''x.example'' @ '']}'') \<and>
   PrintJSON_dat stub \<lparr>Pretty = True, Output = []\<rparr> \<lparr>Domains = [''x.example''], Rest = ()\<rparr> =
     Inr (''{'' @ [newline] @ ''  '' @ json_string ''domains'' @ '': ['' @ [newline] @
          ''    '' @ json_string ''x.example'' @ [newline] @ ''  ]'' @ [newline] @ ''}'') \<and>
   strip_ws (''{'' @ [newline] @ ''  '' @ json_string ''domains'' @ '': ['' @ [newline] @
          ''    '' @ json_string ''x.example'' @ [newline] @ ''  ]'' @ [newline] @ ''}'') =
   strip_ws (''{'' @ json_string ''domains'' @ '':['' @ json_string ''x.example'' @ '']}'')"
proof -
  have compact:
    "PrintJSON_dat stub \<lparr>Pretty = False, Output = []\<rparr> \<lparr>Domains = [''x.example''], Rest = ()\<rparr> =
       Inr (''{'' @ json_string ''domains'' @ '':['' @ json_string ''x.example'' @ '']}'')"
    by (simp add: PrintJSON_dat_def stub_def)
  have pretty:
    "PrintJSON_dat stub \<lparr>Pretty = True, Output = []\<rparr> \<lparr>Domains = [''x.example''], Rest = ()\<rparr> =
       Inr (''{'' @ [newline] @ ''  '' @ json_string ''domains'' @ '': ['' @ [newline] @
            ''    '' @ json_string ''x.example'' @ [newline] @ ''  ]'' @ [newline] @ ''}'')"
    by (simp add: PrintJSON_dat_def MarshalIndent_def stub_def appendIndent_def indent_step_def
          appendNewline_def json_string_def isSpace_def newline_def Let_def eval_nat_numeral)
  from PrintJSON_pretty_compact [of stub "\<lparr>Pretty = False, Output = []\<rparr>"
      "\<lparr>Domains = [''x.example''], Rest = ()\<rparr>"]
  show ?thesis
    by (simp add: compact pretty)
qed

text \<open>
  C9. For every graph and every destination, when the rendering of the graph fails,
  \<^verbatim>\<open>PrintJSON\<close> returns the error of the rendering and leaves the world as it
  was: no file is created, opened or truncated, nothing is written, and the content of
  the destination is what it was before.
\<close>

theorem PrintJSON_marshal_error:
  assumes "Marshal c config = Inl err"
  shows "PrintJSON c args config w = (Some err, w)"
  using assms by (simp add: PrintJSON_def PrintJSON_dat_def MarshalIndent_def)

text \<open>A run of C9: the destination exists, the encoder fails, the old content stays.\<close>

theorem PrintJSON_marshal_error_witness:
  "Marshal stub \<lparr>Domains = [''nan.example''], Rest = ()\<rparr> =
     Inl (GoError (OtherType ''*json.UnsupportedValueError'') ''json: unsupported value: NaN'') \<and>
   fst (PrintJSON stub \<lparr>Pretty = True, Output = ''out.json''\<rparr>
          \<lparr>Domains = [''nan.example''], Rest = ()\<rparr>
          (world0\<lparr>fs := [''out.json'' \<mapsto> ''old content'']\<rparr>)) =
     Some (GoError (OtherType ''*json.UnsupportedValueError'') ''json: unsupported value: NaN'') \<and>
   trace (snd (PrintJSON stub \<lparr>Pretty = True, Output = ''out.json''\<rparr>
          \<lparr>Domains = [''nan.example''], Rest = ()\<rparr>
          (world0\<lparr>fs := [''out.json'' \<mapsto> ''old content'']\<rparr>))) = [] \<and>
   fs (snd (PrintJSON stub \<lparr>Pretty = True, Output = ''out.json''\<rparr>
          \<lparr>Domains = [''nan.example''], Rest = ()\<rparr>
          (world0\<lparr>fs := [''out.json'' \<mapsto> ''old content'']\<rparr>))) ''out.json'' = Some ''old content''"
proof -
  have h: "Marshal stub \<lparr>Domains = [''nan.example''], Rest = ()\<rparr> =
     Inl (GoError (OtherType ''*json.UnsupportedValueError'') ''json: unsupported value: NaN'')"
    by (simp add: stub_def)
  from PrintJSON_marshal_error [OF h] h show ?thesis
    by (simp add: world0_def)
qed

text \<open>
  C10. When the graph renders to the bytes \<open>dat\<close>: with an empty destination
  \<^verbatim>\<open>PrintJSON\<close> prints \<open>dat\<close> followed by a newline to standard output and
  succeeds; with a path that can be created it creates the file, hands exactly \<open>dat\<close>
  to one write and closes the file, and when the write is not stopped and the path is a
  regular file the file then holds exactly \<open>dat\<close>. The two outputs differ: one has
  the newline at its end and the other has not.
\<close>

theorem PrintJSON_destinations:
  assumes "PrintJSON_dat c args config = Inr dat"
  shows "(Output args = [] \<longrightarrow>
            PrintJSON c args config w = (None, emit (EvPrint Stdout (dat @ [newline])) w)) \<and>
         (Output args \<noteq> [] \<and> create_fails w (Output args) = None \<longrightarrow>
            trace (snd (PrintJSON c args config w)) =
              trace w @ [EvCreate (Output args), EvWrite (Output args) dat, EvClose (Output args)]) \<and>
         (Output args \<noteq> [] \<and> Output args \<noteq> os_DevNull \<and>
          create_fails w (Output args) = None \<and> write_fails w (Output args) = None \<longrightarrow>
            fst (PrintJSON c args config w) = None \<and>
            fs (snd (PrintJSON c args config w)) (Output args) = Some dat) \<and>
         dat @ [newline] \<noteq> dat"
proof (intro conjI impI)
  show "PrintJSON c args config w = (None, emit (EvPrint Stdout (dat @ [newline])) w)"
    if "Output args = []"
    using assms that by (simp add: PrintJSON_def fmt_Println_def)
  show "trace (snd (PrintJSON c args config w)) =
          trace w @ [EvCreate (Output args), EvWrite (Output args) dat, EvClose (Output args)]"
    if "Output args \<noteq> [] \<and> create_fails w (Output args) = None"
    using assms that
    by (simp add: PrintJSON_def os_Create_def file_Write_def file_Close_def emit_def Let_def
          split: option.splits prod.splits)
  show "fst (PrintJSON c args config w) = None"
    if "Output args \<noteq> [] \<and> Output args \<noteq> os_DevNull \<and>
        create_fails w (Output args) = None \<and> write_fails w (Output args) = None"
    using assms that
    by (simp add: PrintJSON_def os_Create_def file_Write_def file_Close_def emit_def Let_def)
  show "fs (snd (PrintJSON c args config w)) (Output args) = Some dat"
    if "Output args \<noteq> [] \<and> Output args \<noteq> os_DevNull \<and>
        create_fails w (Output args) = None \<and> write_fails w (Output args) = None"
    using assms that
    by (simp add: PrintJSON_def os_Create_def file_Write_def file_Close_def emit_def Let_def)
  show "dat @ [newline] \<noteq> dat"
    by simp
qed

text \<open>A run of C10: the same graph to standard output and to a file.\<close>

theorem PrintJSON_destinations_witness:
  "PrintJSON_dat stub \<lparr>Pretty = False, Output = []\<rparr> \<lparr>Domains = [''x.example''], Rest = ()\<rparr> =
     Inr (''{'' @ json_string ''domains'' @ '':['' @ json_string ''x.example'' @ '']}'') \<and>
   trace (snd (PrintJSON stub \<lparr>Pretty = False, Output = []\<rparr>
                 \<lparr>Domains = [''x.example''], Rest = ()\<rparr> world0)) =
     [EvPrint Stdout (''{'' @ json_string ''domains'' @ '':['' @ json_string ''x.example'' @ '']}'' @
                      [CHR 0x0A])] \<and>
   trace (snd (PrintJSON stub \<lparr>Pretty = False, Output = ''out.json''\<rparr>
                 \<lparr>Domains = [''x.example''], Rest = ()\<rparr> world0)) =
     [EvCreate ''out.json'',
      EvWrite ''out.json'' (''{'' @ json_string ''domains'' @ '':['' @ json_string ''x.example'' @ '']}''),
      EvClose ''out.json''] \<and>
   fs (snd (PrintJSON stub \<lparr>Pretty = False, Output = ''out.json''\<rparr>
              \<lparr>Domains = [''x.example''], Rest = ()\<rparr> world0)) ''out.json'' =
     Some (''{'' @ json_string ''domains'' @ '':['' @ json_string ''x.example'' @ '']}'')"
proof -
  let ?cfg = "\<lparr>Domains = [''x.example''], Rest = ()\<rparr> :: (string, unit) DNSConfig"
  let ?dat = "''{'' @ json_string ''domains'' @ '':['' @ json_string ''x.example'' @ '']}''"
  have h1: "PrintJSON_dat stub \<lparr>Pretty = False, Output = []\<rparr> ?cfg = Inr ?dat"
    by (simp add: PrintJSON_dat_def stub_def)
  have h2: "PrintJSON_dat stub \<lparr>Pretty = False, Output = ''out.json''\<rparr> ?cfg = Inr ?dat"
    by (simp add: PrintJSON_dat_def stub_def)
  from PrintJSON_destinations [OF h1, of world0] PrintJSON_destinations [OF h2, of world0] h1
  show ?thesis
    by (simp add: world0_def emit_def os_DevNull_def newline_def)
qed

subsection \<open>The pipeline\<close>

text \<open>
  C2. For every invocation with the raw flag set: when the load fails, \<^verbatim>\<open>PrintIR\<close>
  returns the error of the load; when it succeeds, \<^verbatim>\<open>PrintIR\<close> is the
  serializer applied to the graph as the loader returned it, in the world the loader
  left, and from there on the validator is not called and nothing is logged. With the
  loader as modelled, the whole run has as many validator calls and log messages at its
  end as at its start.
\<close>

theorem PrintIR_raw:
  assumes "Raw args"
  shows "(case GetDNSConfig c (GetDNSConfigArgs_of args) w of
            (Inl err, w1) \<Rightarrow> PrintIR c args w = (Some err, w1)
          | (Inr cfg, w1) \<Rightarrow>
              PrintIR c args w = PrintJSON c (PrintJSONArgs_of args) cfg w1 \<and>
              validator_calls (snd (PrintIR c args w)) = validator_calls w1 \<and>
              reported (snd (PrintIR c args w)) = reported w1) \<and>
         validator_calls (snd (PrintIR c args w)) = validator_calls w \<and>
         reported (snd (PrintIR c args w)) = reported w"
proof (intro conjI)
  let ?P = "\<lambda>e. e \<noteq> EvValidateAndNormalizeConfig \<and> logged e = []"
  have js: "extends ?P w1 (snd (PrintJSON c (PrintJSONArgs_of args) cfg w1))" for cfg w1
    by (rule extends_PrintJSON) simp_all
  have "validator_calls (snd (PrintJSON c (PrintJSONArgs_of args) cfg w1)) = validator_calls w1"
    for cfg w1
    unfolding validator_calls_def using js by (rule extends_count) simp
  moreover have "reported (snd (PrintJSON c (PrintJSONArgs_of args) cfg w1)) = reported w1"
    for cfg w1
    using js by (rule extends_reported) simp
  ultimately show "case GetDNSConfig c (GetDNSConfigArgs_of args) w of
            (Inl err, w1) \<Rightarrow> PrintIR c args w = (Some err, w1)
          | (Inr cfg, w1) \<Rightarrow>
              PrintIR c args w = PrintJSON c (PrintJSONArgs_of args) cfg w1 \<and>
              validator_calls (snd (PrintIR c args w)) = validator_calls w1 \<and>
              reported (snd (PrintIR c args w)) = reported w1"
    using assms by (simp add: PrintIR_def split: prod.splits sum.splits)
  have e: "extends ?P w (snd (PrintIR c args w))"
    by (rule extends_PrintIR) (simp_all add: assms)
  from e show "validator_calls (snd (PrintIR c args w)) = validator_calls w"
    unfolding validator_calls_def by (rule extends_count) simp
  from e show "reported (snd (PrintIR c args w)) = reported w"
    by (rule extends_reported) simp
qed

text \<open>
  A run of C2: a source whose validation would report an error is serialized in raw
  mode; the validator is never called and nothing is logged.
\<close>

theorem PrintIR_raw_witness:
  "Raw (run_args ''dnsconfig.js'' [''D=err.example''] False [] True) \<and>
   fst (PrintIR stub (run_args ''dnsconfig.js'' [''D=err.example''] False [] True) world0) = None \<and>
   trace (snd (PrintIR stub (run_args ''dnsconfig.js'' [''D=err.example''] False [] True) world0)) =
     [EvExecuteJavaScript ''dnsconfig.js'' False, EvPostProcess,
      EvPrint Stdout (''{'' @ json_string ''domains'' @ '':['' @ json_string ''err.example'' @ '']}'' @
                      [CHR 0x0A])] \<and>
   validator_calls (snd (PrintIR stub (run_args ''dnsconfig.js'' [''D=err.example''] False [] True) world0)) = 0 \<and>
   reported (snd (PrintIR stub (run_args ''dnsconfig.js'' [''D=err.example''] False [] True) world0)) = []"
proof -
  let ?a = "run_args ''dnsconfig.js'' [''D=err.example''] False [] True"
  have h: "Raw ?a" by (simp add: run_args_def)
  have p: "PrintJSONArgs_of ?a = \<lparr>Pretty = False, Output = []\<rparr>"
    by (simp add: run_args_def)
  from PrintIR_raw [OF h, of stub world0] h
  show ?thesis
    using run_stub [of "''err.example''" False "[]" True world0]
    by (simp add: p PrintJSON_def PrintJSON_dat_def fmt_Println_def emit_def stub_def
          world0_def validator_calls_def reported_def newline_def)
qed

text \<open>
  C3. For every invocation without the raw flag whose load succeeds and whose
  classification returns fatal: \<^verbatim>\<open>PrintIR\<close> returns an error with the text
  \<^verbatim>\<open>exiting due to validation errors\<close> and nothing else; the world is the world
  after the load with the call of the validator, the count line and one line per issue
  added to the trace, so the lines have been written when the error is returned, and
  the serializer has not run: no file event, no print, the files unchanged.
\<close>

theorem PrintIR_fatal:
  assumes "GetDNSConfig c (GetDNSConfigArgs_of args) w = (Inr cfg, w1)"
    and "\<not> Raw args"
    and "ValidateAndNormalizeConfig c cfg = (errs, cfg')"
    and "fst (PrintValidationErrors errs (emit EvValidateAndNormalizeConfig w1))"
  shows "PrintIR c args w =
           (Some (GoError FmtError ''exiting due to validation errors''),
            w1\<lparr>trace := trace w1 @ EvValidateAndNormalizeConfig #
                    EvLog (log_output w1) (count_line (length errs)) #
                    map (\<lambda>err. EvLog (log_output w1) (issue_line err)) errs\<rparr>)"
proof -
  let ?w2 = "emit EvValidateAndNormalizeConfig w1"
  from assms(4) have ne: "errs \<noteq> []"
    by (auto simp: classifier_Nil)
  have "snd (PrintValidationErrors errs ?w2) =
          w1\<lparr>trace := trace w1 @ EvValidateAndNormalizeConfig #
                  EvLog (log_output w1) (count_line (length errs)) #
                  map (\<lambda>err. EvLog (log_output w1) (issue_line err)) errs\<rparr>"
    by (simp add: classifier_world [OF ne] emit_def)
  with assms(4) have "PrintValidationErrors errs ?w2 =
          (True, w1\<lparr>trace := trace w1 @ EvValidateAndNormalizeConfig #
                  EvLog (log_output w1) (count_line (length errs)) #
                  map (\<lambda>err. EvLog (log_output w1) (issue_line err)) errs\<rparr>)"
    by (cases "PrintValidationErrors errs ?w2") simp
  with assms(1-3) show ?thesis
    by (simp add: PrintIR_def)
qed

text \<open>A run of C3: a warning and an error are logged, then the pipeline fails.\<close>

theorem PrintIR_fatal_witness:
  "fst (PrintIR stub (run_args ''dnsconfig.js'' [''D=err.example''] True ''out.json'' False) world0) =
     Some (GoError FmtError ''exiting due to validation errors'') \<and>
   trace (snd (PrintIR stub (run_args ''dnsconfig.js'' [''D=err.example''] True ''out.json'' False) world0)) =
     [EvExecuteJavaScript ''dnsconfig.js'' False, EvPostProcess, EvValidateAndNormalizeConfig,
      EvLog Stderr (''2 Validation errors:'' @ [CHR 0x0A]),
      EvLog Stderr (''WARNING: TTL is low'' @ [CHR 0x0A]),
      EvLog Stderr (''ERROR: CNAME at apex'' @ [CHR 0x0A])] \<and>
   fs (snd (PrintIR stub (run_args ''dnsconfig.js'' [''D=err.example''] True ''out.json'' False) world0))
     ''out.json'' = None"
proof -
  let ?a = "run_args ''dnsconfig.js'' [''D=err.example''] True ''out.json'' False"
  let ?cfg = "\<lparr>Domains = [''err.example''], Rest = ()\<rparr> :: (string, unit) DNSConfig"
  let ?w1 = "world0\<lparr>trace := trace world0 @ [EvExecuteJavaScript ''dnsconfig.js'' False, EvPostProcess]\<rparr>"
  have h1: "GetDNSConfig stub (GetDNSConfigArgs_of ?a) world0 = (Inr ?cfg, ?w1)"
    using run_stub [of "''err.example''" True "''out.json''" False world0] by simp
  have h2: "\<not> Raw ?a" by (simp add: run_args_def)
  have h3: "ValidateAndNormalizeConfig stub ?cfg = ([warning_ttl, error_cname], ?cfg)"
    by (simp add: stub_def)
  have h4: "fst (PrintValidationErrors [warning_ttl, error_cname] (emit EvValidateAndNormalizeConfig ?w1))"
    by (simp add: classifier_fatal kind_def warning_ttl_def error_cname_def)
  from PrintIR_fatal [OF h1 h2 h3 h4]
  show ?thesis
    by (simp add: world0_def count_line_def issue_line_def kind_def fmt_s_def fmt_d.simps
          warning_ttl_def error_cname_def newline_def)
qed

text \<open>
  C4. For every invocation whose source path is empty, \<^verbatim>\<open>ExecuteDSL\<close> returns
  the error \<^verbatim>\<open>no config specified\<close> and leaves the world as it was, so the
  evaluator has not been called; and, with the loader as modelled, \<^verbatim>\<open>PrintIR\<close>
  and both commands fail with that error without any call of the evaluator.
\<close>

theorem ExecuteDSL_no_config:
  assumes "JSFile args = []" and "JSFile (GetDNSConfigArgs_of pargs) = []" and "JSFile cargs = []"
  shows "ExecuteDSL c args w = (Inl (GoError FmtError ''no config specified''), w) \<and>
         evaluator_calls (snd (ExecuteDSL c args w)) = evaluator_calls w \<and>
         PrintIR c pargs w = (Some (GoError FmtError ''no config specified''), w) \<and>
         fst (print_ir_Action c pargs w) = Some (GoError (CliExitError 1) ''no config specified'') \<and>
         evaluator_calls (snd (print_ir_Action c pargs w)) = evaluator_calls w \<and>
         fst (check_Action c cargs w) = Some (GoError (CliExitError 1) ''no config specified'') \<and>
         evaluator_calls (snd (check_Action c cargs w)) = evaluator_calls w"
proof -
  have x: "ExecuteDSL c a v = (Inl (GoError FmtError ''no config specified''), v)"
    if "JSFile a = []" for a v
    using that by (simp add: ExecuteDSL_def)
  have p: "PrintIR c a v = (Some (GoError FmtError ''no config specified''), v)"
    if "JSFile (GetDNSConfigArgs_of a) = []" for a v
    using that by (simp add: PrintIR_def GetDNSConfig_def x)
  have "JSFile (GetDNSConfigArgs_of (check_pargs cargs)) = []"
    using assms(3) by (simp add: check_pargs_def)
  then have k: "check_Action c cargs w =
      (Some (GoError (CliExitError 1) ''no config specified''),
       emit EvPrintWarning (check_redirect w))"
    by (simp add: check_Action_def p exit_def rfc4183_PrintWarning_def)
  have "evaluator_calls (emit EvPrintWarning (check_redirect w)) = evaluator_calls w"
    by (simp add: evaluator_calls_def emit_def check_redirect_def)
  with k x [OF assms(1)] p [OF assms(2)] show ?thesis
    by (simp add: print_ir_Action_def exit_def)
qed

text \<open>A run of C4: no source path, variables given; nothing is evaluated.\<close>

theorem ExecuteDSL_no_config_witness:
  "JSFile \<lparr>JSFile = [], DevMode = False, Variable = [''D=x.example'']\<rparr> = [] \<and>
   fst (ExecuteDSL stub \<lparr>JSFile = [], DevMode = False, Variable = [''D=x.example'']\<rparr> world0) =
     Inl (GoError FmtError ''no config specified'') \<and>
   trace (snd (ExecuteDSL stub \<lparr>JSFile = [], DevMode = False, Variable = [''D=x.example'']\<rparr> world0)) = [] \<and>
   PrintIR stub (run_args [] [''D=x.example''] False [] False) world0 =
     (Some (GoError FmtError ''no config specified''), world0) \<and>
   fst (check_Action stub \<lparr>JSFile = [], DevMode = False, Variable = [''D=x.example''], JSONFile = []\<rparr> world0) =
     Some (GoError (CliExitError 1) ''no config specified'') \<and>
   evaluator_calls (snd (check_Action stub
     \<lparr>JSFile = [], DevMode = False, Variable = [''D=x.example''], JSONFile = []\<rparr> world0)) = 0"
proof -
  have h1: "JSFile \<lparr>JSFile = [], DevMode = False, Variable = [''D=x.example'']\<rparr> = []"
    by simp
  have h2: "JSFile (GetDNSConfigArgs_of (run_args [] [''D=x.example''] False [] False)) = []"
    by (simp add: run_args_def)
  have h3: "JSFile \<lparr>JSFile = [], DevMode = False, Variable = [''D=x.example''], JSONFile = []\<rparr> = []"
    by simp
  from ExecuteDSL_no_config [OF h1 h2 h3, of stub world0]
  show ?thesis
    by (simp add: evaluator_calls_def world0_def)
qed

subsection \<open>The check command\<close>

text \<open>
  C8. For every invocation of \<^verbatim>\<open>check\<close>: the arguments handed to the pipeline
  have \<open>Pretty\<close> false, \<open>Output\<close> the null device and \<open>Raw\<close> false; the pipeline
  runs with the logger and \<^verbatim>\<open>cli.ErrWriter\<close> set to standard output; after the
  pipeline the warning emitter is called, and then \<^verbatim>\<open>No errors.\<close> is printed to
  standard output exactly when the pipeline returned nil. Over the whole action nothing
  is written to the error stream, the emitter is called exactly once, the message is
  printed once on success and not at all on failure, and when the load succeeds the
  validator is called exactly once.
\<close>

theorem check_Action_contract:
  "Pretty (PrintJSONArgs_of (check_pargs args)) = False \<and>
   Output (PrintJSONArgs_of (check_pargs args)) = os_DevNull \<and>
   Raw (check_pargs args) = False \<and>
   log_output (check_redirect w) = Stdout \<and> ErrWriter (check_redirect w) = Stdout \<and>
   check_Action c args w =
     (case PrintIR c (check_pargs args) (check_redirect w) of
        (None, w1) \<Rightarrow>
          (None, emit (EvPrint Stdout (''No errors.'' @ [newline])) (emit EvPrintWarning w1))
      | (Some e, w1) \<Rightarrow> (Some (GoError (CliExitError 1) (Error e)), emit EvPrintWarning w1)) \<and>
   (fst (check_Action c args w) = None) =
     (fst (PrintIR c (check_pargs args) (check_redirect w)) = None) \<and>
   written Stderr (snd (check_Action c args w)) = written Stderr w \<and>
   warning_calls (snd (check_Action c args w)) = warning_calls w + 1 \<and>
   count_list (trace (snd (check_Action c args w))) (EvPrint Stdout (''No errors.'' @ [newline])) =
     count_list (trace w) (EvPrint Stdout (''No errors.'' @ [newline])) +
     (if fst (check_Action c args w) = None then 1 else 0) \<and>
   (\<not> isl (fst (GetDNSConfig c (GetDNSConfigArgs_of (check_pargs args)) (check_redirect w))) \<longrightarrow>
      validator_calls (snd (check_Action c args w)) = validator_calls w + 1)"
proof -
  let ?pa = "check_pargs args" and ?w0 = "check_redirect w"
  let ?msg = "''No errors.'' @ [newline]"
  let ?P = "\<lambda>e. \<not> on_stream Stderr e \<and> e \<noteq> EvPrintWarning \<and> e \<noteq> EvPrint Stdout ?msg"
  obtain r w1 where run: "PrintIR c ?pa ?w0 = (r, w1)"
    by (cases "PrintIR c ?pa ?w0")
  have "extends ?P ?w0 (snd (PrintIR c ?pa ?w0))"
    by (rule extends_PrintIR) (simp_all add: check_pargs_def os_DevNull_def check_redirect_def)
  with run have e: "extends ?P ?w0 w1" by simp
  have t0: "trace ?w0 = trace w"
    by (simp add: check_redirect_def)
  have act: "check_Action c args w =
     (case r of None \<Rightarrow> (None, emit (EvPrint Stdout ?msg) (emit EvPrintWarning w1))
      | Some e \<Rightarrow> (Some (GoError (CliExitError 1) (Error e)), emit EvPrintWarning w1))"
    by (simp add: check_Action_def run exit_def rfc4183_PrintWarning_def fmt_Fprintf_def
          Let_def split: option.splits)
  have vc: "validator_calls (emit ev v) = validator_calls v"
    if "ev \<noteq> EvValidateAndNormalizeConfig" for ev v
    using that by (simp add: validator_calls_def emit_def)
  have fin: "snd (check_Action c args w) =
     (case r of None \<Rightarrow> emit (EvPrint Stdout ?msg) (emit EvPrintWarning w1)
      | Some e \<Rightarrow> emit EvPrintWarning w1)"
    by (simp add: act split: option.splits)
  have ok: "(fst (check_Action c args w) = None) = (r = None)"
    by (simp add: act split: option.splits)
  have k1: "Pretty (PrintJSONArgs_of ?pa) = False"
    and k2: "Output (PrintJSONArgs_of ?pa) = os_DevNull"
    and k3: "Raw ?pa = False"
    by (simp_all add: check_pargs_def)
  have k4: "log_output ?w0 = Stdout" and k5: "ErrWriter ?w0 = Stdout"
    by (simp_all add: check_redirect_def)
  have k6: "check_Action c args w =
     (case PrintIR c ?pa ?w0 of
        (None, w1) \<Rightarrow> (None, emit (EvPrint Stdout ?msg) (emit EvPrintWarning w1))
      | (Some e, w1) \<Rightarrow> (Some (GoError (CliExitError 1) (Error e)), emit EvPrintWarning w1))"
    by (simp add: act run)
  have k7: "(fst (check_Action c args w) = None) = (fst (PrintIR c ?pa ?w0) = None)"
    by (simp add: ok run)
  have "written Stderr w1 = written Stderr w"
    using extends_filter [OF e, of "on_stream Stderr"] t0 by (simp add: written_def)
  then have k8: "written Stderr (snd (check_Action c args w)) = written Stderr w"
    by (simp add: fin written_def emit_def split: option.splits)
  have "warning_calls w1 = warning_calls w"
    using extends_count [OF e, of EvPrintWarning] t0 by (simp add: warning_calls_def)
  then have k9: "warning_calls (snd (check_Action c args w)) = warning_calls w + 1"
    by (simp add: fin warning_calls_def emit_def split: option.splits)
  have "count_list (trace w1) (EvPrint Stdout ?msg) = count_list (trace w) (EvPrint Stdout ?msg)"
    using extends_count [OF e, of "EvPrint Stdout ?msg"] t0 by simp
  then have k10: "count_list (trace (snd (check_Action c args w))) (EvPrint Stdout ?msg) =
     count_list (trace w) (EvPrint Stdout ?msg) +
     (if fst (check_Action c args w) = None then 1 else 0)"
    by (simp add: fin ok emit_def split: option.splits)
  have k11: "\<not> isl (fst (GetDNSConfig c (GetDNSConfigArgs_of ?pa) ?w0)) \<longrightarrow>
      validator_calls (snd (check_Action c args w)) = validator_calls w + 1"
  proof
    assume "\<not> isl (fst (GetDNSConfig c (GetDNSConfigArgs_of ?pa) ?w0))"
    then obtain cfg w' where g: "GetDNSConfig c (GetDNSConfigArgs_of ?pa) ?w0 = (Inr cfg, w')"
      by (cases "GetDNSConfig c (GetDNSConfigArgs_of ?pa) ?w0";
          cases "fst (GetDNSConfig c (GetDNSConfigArgs_of ?pa) ?w0)") auto
    have nr: "\<not> Raw ?pa" by (simp add: check_pargs_def)
    from validator_calls_PrintIR [OF nr g] run
    have "validator_calls w1 = validator_calls ?w0 + 1" by simp
    also have "validator_calls ?w0 = validator_calls w"
      by (simp add: validator_calls_def t0)
    finally show "validator_calls (snd (check_Action c args w)) = validator_calls w + 1"
      by (simp add: fin vc split: option.splits)
  qed
  show ?thesis
    by (intro conjI k1 k2 k3 k4 k5 k6 k7 k8 k9 k10 k11)
qed

text \<open>
  A run of C8: a source with a warning only passes and prints the message after the
  emitter; a source with an error fails, its lines are on standard output, the emitter
  is still called, and the message is not printed.
\<close>

theorem check_Action_contract_witness:
  "fst (check_Action stub \<lparr>JSFile = ''dnsconfig.js'', DevMode = False, Variable = [''D=warn.example''],
          JSONFile = []\<rparr> world0) = None \<and>
   trace (snd (check_Action stub \<lparr>JSFile = ''dnsconfig.js'', DevMode = False,
          Variable = [''D=warn.example''], JSONFile = []\<rparr> world0)) =
     [EvExecuteJavaScript ''dnsconfig.js'' False, EvPostProcess, EvValidateAndNormalizeConfig,
      EvLog Stdout (''1 Validation errors:'' @ [CHR 0x0A]),
      EvLog Stdout (''WARNING: TTL is low'' @ [CHR 0x0A]),
      EvCreate ''/dev/null'',
      EvWrite ''/dev/null'' (''{'' @ json_string ''domains'' @ '':['' @ json_string ''warn.example'' @ '']}''),
      EvClose ''/dev/null'',
      EvPrintWarning,
      EvPrint Stdout (''No errors.'' @ [CHR 0x0A])] \<and>
   fst (check_Action stub \<lparr>JSFile = ''dnsconfig.js'', DevMode = False, Variable = [''D=err.example''],
          JSONFile = []\<rparr> world0) =
     Some (GoError (CliExitError 1) ''exiting due to validation errors'') \<and>
   trace (snd (check_Action stub \<lparr>JSFile = ''dnsconfig.js'', DevMode = False,
          Variable = [''D=err.example''], JSONFile = []\<rparr> world0)) =
     [EvExecuteJavaScript ''dnsconfig.js'' False, EvPostProcess, EvValidateAndNormalizeConfig,
      EvLog Stdout (''2 Validation errors:'' @ [CHR 0x0A]),
      EvLog Stdout (''WARNING: TTL is low'' @ [CHR 0x0A]),
      EvLog Stdout (''ERROR: CNAME at apex'' @ [CHR 0x0A]),
      EvPrintWarning]"
proof -
  let ?ok = "\<lparr>JSFile = ''dnsconfig.js'', DevMode = False, Variable = [''D=warn.example''],
          JSONFile = []\<rparr>"
  let ?bad = "\<lparr>JSFile = ''dnsconfig.js'', DevMode = False, Variable = [''D=err.example''],
          JSONFile = []\<rparr>"
  have a: "check_pargs ?ok = run_args ''dnsconfig.js'' [''D=warn.example''] False os_DevNull False"
    and b: "check_pargs ?bad = run_args ''dnsconfig.js'' [''D=err.example''] False os_DevNull False"
    by (simp_all add: check_pargs_def run_args_def)
  have r1: "PrintIR stub (check_pargs ?ok) (check_redirect world0) =
      (None, world0\<lparr>ErrWriter := Stdout, log_output := Stdout, trace :=
        [EvExecuteJavaScript ''dnsconfig.js'' False, EvPostProcess, EvValidateAndNormalizeConfig,
         EvLog Stdout (''1 Validation errors:'' @ [CHR 0x0A]),
         EvLog Stdout (''WARNING: TTL is low'' @ [CHR 0x0A]),
         EvCreate ''/dev/null'',
         EvWrite ''/dev/null'' (''{'' @ json_string ''domains'' @ '':['' @ json_string ''warn.example'' @ '']}''),
         EvClose ''/dev/null'']\<rparr>)"
    unfolding a
    using run_stub [of "''warn.example''" False os_DevNull False "check_redirect world0"]
    by (simp add: PrintIR_def run_args_def stub_def PrintValidationErrors_def fmt_d.simps
          fmt_s_def is_Warning_def warning_ttl_def log_Printf_def emit_def check_redirect_def
          world0_def PrintJSON_def PrintJSON_dat_def os_Create_def file_Write_def
          file_Close_def os_DevNull_def newline_def Let_def)
  have r2: "PrintIR stub (check_pargs ?bad) (check_redirect world0) =
      (Some (GoError FmtError ''exiting due to validation errors''),
       world0\<lparr>ErrWriter := Stdout, log_output := Stdout, trace :=
        [EvExecuteJavaScript ''dnsconfig.js'' False, EvPostProcess, EvValidateAndNormalizeConfig,
         EvLog Stdout (''2 Validation errors:'' @ [CHR 0x0A]),
         EvLog Stdout (''WARNING: TTL is low'' @ [CHR 0x0A]),
         EvLog Stdout (''ERROR: CNAME at apex'' @ [CHR 0x0A])]\<rparr>)"
    unfolding b
    using run_stub [of "''err.example''" False os_DevNull False "check_redirect world0"]
    by (simp add: PrintIR_def run_args_def stub_def PrintValidationErrors_def fmt_d.simps
          fmt_s_def is_Warning_def warning_ttl_def error_cname_def log_Printf_def emit_def
          check_redirect_def world0_def newline_def Let_def)
  from check_Action_contract [of ?ok world0 stub] check_Action_contract [of ?bad world0 stub]
  show ?thesis
    by (simp add: r1 r2 emit_def newline_def)
qed

end
